theory Spec2Isabelle
  imports Main "HOL-Library.Sublist"
begin

section \<open>Python values and the built-in operations the client uses\<close>

text \<open>
  The chunks that \<^verbatim>\<open>agent.async_stream_query\<close> yields are untyped Python values: the client
  probes their shape with \<^verbatim>\<open>isinstance\<close>, \<^verbatim>\<open>in\<close> and subscripting. They are modelled as
  JSON-like values. A dictionary is an association list with string keys, read by
  \<open>map_of\<close> (the keys of a Python dictionary are distinct). Numbers are integers; a float
  behaves like an integer under every operation used here (each one raises TypeError).
\<close>

datatype pyval =
    PNone
  | PBool bool
  | PInt int
  | PStr string
  | PList "pyval list"
  | PDict "(string \<times> pyval) list"

text \<open>
  Exceptions are values. \<open>AgentError\<close> stands for whatever the remote agent SDK raises
  (connection failure, unknown resource, a failure while a stream is delivered), with an
  opaque payload.
\<close>

datatype exn = TypeError | KeyError | AgentError string

text \<open>\<^verbatim>\<open>isinstance(v, dict)\<close> and \<^verbatim>\<open>isinstance(v, str)\<close>.\<close>

fun isinstance_dict :: "pyval \<Rightarrow> bool" where
  "isinstance_dict (PDict d) = True"
| "isinstance_dict _ = False"

fun isinstance_str :: "pyval \<Rightarrow> bool" where
  "isinstance_str (PStr s) = True"
| "isinstance_str _ = False"

text \<open>
  \<^verbatim>\<open>k in v\<close> for a string \<open>k\<close>: key membership in a dictionary, substring test on a
  string, element membership in a list, TypeError on None, booleans and numbers
  ("argument of type ... is not iterable").
\<close>

fun py_in :: "string \<Rightarrow> pyval \<Rightarrow> exn + bool" where
  "py_in k (PDict d) = Inr (map_of d k \<noteq> None)"
| "py_in k (PStr s) = Inr (sublist k s)"
| "py_in k (PList xs) = Inr (PStr k \<in> set xs)"
| "py_in k PNone = Inl TypeError"
| "py_in k (PBool b) = Inl TypeError"
| "py_in k (PInt i) = Inl TypeError"

text \<open>
  \<^verbatim>\<open>v[k]\<close> for a string \<open>k\<close>: the value stored in a dictionary (KeyError when absent);
  TypeError on everything else (a string or a list wants an integer index, the others are
  not subscriptable).
\<close>

fun py_getitem :: "pyval \<Rightarrow> string \<Rightarrow> exn + pyval" where
  "py_getitem (PDict d) k = (case map_of d k of None \<Rightarrow> Inl KeyError | Some v \<Rightarrow> Inr v)"
| "py_getitem (PStr s) k = Inl TypeError"
| "py_getitem (PList xs) k = Inl TypeError"
| "py_getitem PNone k = Inl TypeError"
| "py_getitem (PBool b) k = Inl TypeError"
| "py_getitem (PInt i) k = Inl TypeError"

text \<open>
  What \<^verbatim>\<open>for part in v\<close> iterates over: the elements of a list, the one-character strings
  of a string, the keys of a dictionary; TypeError on None, booleans and numbers.
\<close>

fun py_iter :: "pyval \<Rightarrow> exn + pyval list" where
  "py_iter (PList xs) = Inr xs"
| "py_iter (PStr s) = Inr (map (\<lambda>c. PStr [c]) s)"
| "py_iter (PDict d) = Inr (map (\<lambda>kv. PStr (fst kv)) d)"
| "py_iter PNone = Inl TypeError"
| "py_iter (PBool b) = Inl TypeError"
| "py_iter (PInt i) = Inl TypeError"

text \<open>
  \<^verbatim>\<open>acc += v\<close> where \<open>acc\<close> is a string: concatenation when \<open>v\<close> is a string, TypeError
  otherwise ("can only concatenate str").
\<close>

fun py_iadd_str :: "string \<Rightarrow> pyval \<Rightarrow> exn + string" where
  "py_iadd_str acc (PStr s) = Inr (acc @ s)"
| "py_iadd_str acc _ = Inl TypeError"

section \<open>Session state of the Streamlit client\<close>

text \<open>
  A session object as \<^verbatim>\<open>agent.create_session\<close> and \<^verbatim>\<open>agent.async_get_session\<close> return it:
  its \<^verbatim>\<open>"id"\<close> entry and the rest of the document (the server-side state), which the
  client stores and never inspects.
\<close>

record session_obj =
  obj_id :: string
  obj_rest :: pyval

text \<open>One entry of a message history: \<^verbatim>\<open>{"role": ..., "content": ...}\<close>.\<close>

record message =
  role :: string
  content :: string

text \<open>
  \<^verbatim>\<open>st.session_state\<close>: the active session id (\<^verbatim>\<open>None\<close> at start), the list of known
  session objects, the message histories keyed by session id, and the user id. The key of
  a history is whatever \<^verbatim>\<open>session_id\<close> holds, so the key type is \<open>string option\<close>.
\<close>

record session_state =
  session_id :: "string option"
  sessions :: "session_obj list"
  messages :: "string option \<rightharpoonup> message list"
  user_id :: string

text \<open>
  The remote agent: what each of its three operations answers during one run of the
  script. A stream is the finite list of what the asynchronous iterator does at each
  step: yield a chunk, or raise; the end of the list is the end of the stream. Items
  after a \<open>Raise\<close> are never reached.
\<close>

datatype stream_item = Yield pyval | Raise exn

record agent =
  create_session :: "string \<Rightarrow> exn + session_obj"
  async_stream_query :: "string \<Rightarrow> string \<Rightarrow> string option \<Rightarrow> stream_item list"
  async_get_session :: "string option \<Rightarrow> string \<Rightarrow> exn + session_obj"

text \<open>
  The observable effects of a run, in the order they happen: the calls to the remote
  agent, the calls \<^verbatim>\<open>message_placeholder.markdown(text + cursor)\<close> (\<open>Markdown_cursor text\<close>)
  and \<^verbatim>\<open>message_placeholder.markdown(text)\<close> (\<open>Markdown text\<close>), and the appends to a message
  history. Console prints and the other widgets are left out.
\<close>

datatype effect =
    Create_session string
  | Async_stream_query string string "string option"
  | Async_get_session "string option" string
  | Markdown_cursor string
  | Markdown string
  | Append_message "string option" message

section \<open>The response loop of \<^verbatim>\<open>get_response_and_session\<close>\<close>

text \<open>
  \<^verbatim>\<open>for part in chunk["content"]["parts"]\<close>: a part with a \<^verbatim>\<open>"text"\<close> entry is appended to
  the accumulated text and the placeholder is redrawn. An exception leaves the loop; the
  redraws made before it have happened.
\<close>

fun parts_loop :: "string \<Rightarrow> pyval list \<Rightarrow> effect list \<times> (exn + string)" where
  "parts_loop acc [] = ([], Inr acc)"
| "parts_loop acc (part # rest) =
     (case py_in ''text'' part of
        Inl e \<Rightarrow> ([], Inl e)
      | Inr False \<Rightarrow> parts_loop acc rest
      | Inr True \<Rightarrow>
          (case py_getitem part ''text'' of
             Inl e \<Rightarrow> ([], Inl e)
           | Inr v \<Rightarrow>
               (case py_iadd_str acc v of
                  Inl e \<Rightarrow> ([], Inl e)
                | Inr acc' \<Rightarrow>
                    (case parts_loop acc' rest of
                       (effs, r) \<Rightarrow> (Markdown_cursor acc' # effs, r)))))"

text \<open>
  The condition
  \<^verbatim>\<open>isinstance(chunk, dict) and "content" in chunk and "parts" in chunk["content"]\<close>,
  evaluated left to right with short-circuit \<^verbatim>\<open>and\<close>.
\<close>

definition has_content_parts :: "pyval \<Rightarrow> exn + bool" where
  "has_content_parts chunk =
     (if \<not> isinstance_dict chunk then Inr False
      else case py_in ''content'' chunk of
             Inl e \<Rightarrow> Inl e
           | Inr False \<Rightarrow> Inr False
           | Inr True \<Rightarrow>
               (case py_getitem chunk ''content'' of
                  Inl e \<Rightarrow> Inl e
                | Inr c \<Rightarrow> py_in ''parts'' c))"

text \<open>The value of \<^verbatim>\<open>chunk["content"]["parts"]\<close>, made iterable.\<close>

definition content_parts :: "pyval \<Rightarrow> exn + pyval list" where
  "content_parts chunk =
     (case py_getitem chunk ''content'' of
        Inl e \<Rightarrow> Inl e
      | Inr c \<Rightarrow>
          (case py_getitem c ''parts'' of
             Inl e \<Rightarrow> Inl e
           | Inr ps \<Rightarrow> py_iter ps))"

text \<open>
  The body of \<^verbatim>\<open>async for chunk in response_stream\<close>: a dictionary with content parts, else
  a plain string, else nothing.
\<close>

definition handle_chunk :: "string \<Rightarrow> pyval \<Rightarrow> effect list \<times> (exn + string)" where
  "handle_chunk acc chunk =
     (case has_content_parts chunk of
        Inl e \<Rightarrow> ([], Inl e)
      | Inr True \<Rightarrow>
          (case content_parts chunk of
             Inl e \<Rightarrow> ([], Inl e)
           | Inr parts \<Rightarrow> parts_loop acc parts)
      | Inr False \<Rightarrow>
          (case chunk of
             PStr s \<Rightarrow> ([Markdown_cursor (acc @ s)], Inr (acc @ s))
           | _ \<Rightarrow> ([], Inr acc)))"

text \<open>
  The \<^verbatim>\<open>async for\<close> loop. There is no \<^verbatim>\<open>try\<close> around it: an exception of the stream or of
  the loop body ends it and propagates.
\<close>

fun stream_loop :: "string \<Rightarrow> stream_item list \<Rightarrow> effect list \<times> (exn + string)" where
  "stream_loop acc [] = ([], Inr acc)"
| "stream_loop acc (Raise e # rest) = ([], Inl e)"
| "stream_loop acc (Yield chunk # rest) =
     (case handle_chunk acc chunk of
        (effs, Inl e) \<Rightarrow> (effs, Inl e)
      | (effs, Inr acc') \<Rightarrow>
          (case stream_loop acc' rest of
             (effs', r) \<Rightarrow> (effs @ effs', r)))"

text \<open>
  \<^verbatim>\<open>get_response_and_session(prompt)\<close>: start the stream, run the loop from the empty text,
  redraw the placeholder without the cursor, fetch the session, return both.
\<close>

definition get_response_and_session ::
  "agent \<Rightarrow> session_state \<Rightarrow> string \<Rightarrow> effect list \<times> (exn + string \<times> session_obj)" where
  "get_response_and_session ag st prompt =
     (case stream_loop [] (async_stream_query ag prompt (user_id st) (session_id st)) of
        (effs, Inl e) \<Rightarrow>
          (Async_stream_query prompt (user_id st) (session_id st) # effs, Inl e)
      | (effs, Inr full_response_content) \<Rightarrow>
          (Async_stream_query prompt (user_id st) (session_id st) # effs
             @ [Markdown full_response_content,
                Async_get_session (session_id st) (user_id st)],
           case async_get_session ag (session_id st) (user_id st) of
             Inl e \<Rightarrow> Inl e
           | Inr updated_session \<Rightarrow> Inr (full_response_content, updated_session)))"

section \<open>Session creation, session selection and the chat handler\<close>

text \<open>
  \<^verbatim>\<open>create_new_session()\<close>: the call to the agent comes first; when it raises, nothing has
  been assigned yet. Otherwise the new id becomes the active one, the object is appended
  to the list of sessions and the session gets an empty message history.
\<close>

definition create_new_session ::
  "agent \<Rightarrow> session_state \<Rightarrow> effect list \<times> session_state \<times> (exn + unit)" where
  "create_new_session ag st =
     (case create_session ag (user_id st) of
        Inl e \<Rightarrow> ([Create_session (user_id st)], st, Inl e)
      | Inr new_session_obj \<Rightarrow>
          ([Create_session (user_id st)],
           st\<lparr>session_id := Some (obj_id new_session_obj),
              sessions := sessions st @ [new_session_obj],
              messages := (messages st)(Some (obj_id new_session_obj) \<mapsto> [])\<rparr>,
           Inr ()))"

text \<open>
  The loop that stores the fetched session object: the first entry of the list whose id
  is the active session id is replaced, and the loop breaks.
\<close>

fun update_session_obj ::
  "session_obj list \<Rightarrow> string option \<Rightarrow> session_obj \<Rightarrow> session_obj list" where
  "update_session_obj [] sid updated_session_obj = []"
| "update_session_obj (s # rest) sid updated_session_obj =
     (if Some (obj_id s) = sid then updated_session_obj # rest
      else s # update_session_obj rest sid updated_session_obj)"

text \<open>
  \<^verbatim>\<open>messages.setdefault(session_id, []).append({"role": "user", "content": prompt})\<close>.
\<close>

definition append_user_message :: "session_state \<Rightarrow> string \<Rightarrow> session_state" where
  "append_user_message st prompt =
     st\<lparr>messages := (messages st)(session_id st \<mapsto>
          (case messages st (session_id st) of None \<Rightarrow> [] | Some ms \<Rightarrow> ms)
            @ [\<lparr>role = ''user'', content = prompt\<rparr>])\<rparr>"

text \<open>
  The handler of a submitted prompt: append the user message, run
  \<^verbatim>\<open>get_response_and_session\<close>, append the assistant message
  (\<^verbatim>\<open>messages[session_id].append\<close>, KeyError on a missing key), store the fetched session
  object. An exception stops the handler where it is raised; what was assigned to the
  session state before stays assigned.
\<close>

definition chat_handler ::
  "agent \<Rightarrow> session_state \<Rightarrow> string \<Rightarrow> effect list \<times> session_state \<times> (exn + unit)" where
  "chat_handler ag st prompt =
     (let st1 = append_user_message st prompt;
          user_eff = Append_message (session_id st) \<lparr>role = ''user'', content = prompt\<rparr>
      in case get_response_and_session ag st1 prompt of
           (effs, Inl e) \<Rightarrow> (user_eff # effs, st1, Inl e)
         | (effs, Inr (full_response, updated_session_obj)) \<Rightarrow>
             (case messages st1 (session_id st1) of
                None \<Rightarrow> (user_eff # effs, st1, Inl KeyError)
              | Some ms \<Rightarrow>
                  (user_eff # effs
                     @ [Append_message (session_id st1)
                          \<lparr>role = ''assistant'', content = full_response\<rparr>],
                   st1\<lparr>messages := (messages st1)(session_id st1 \<mapsto>
                          ms @ [\<lparr>role = ''assistant'', content = full_response\<rparr>]),
                       sessions := update_session_obj (sessions st1) (session_id st1)
                                     updated_session_obj\<rparr>,
                   Inr ())))"

text \<open>
  The session selector of the sidebar, shown when the list of sessions is not empty:
  \<open>selected\<close> is what the select box returns. A non-empty selection that differs from the
  active id becomes the active id, and the script reruns (\<open>True\<close>).
\<close>

definition session_selector :: "session_state \<Rightarrow> string \<Rightarrow> session_state \<times> bool" where
  "session_selector st selected_session_id =
     (if sessions st \<noteq> [] \<and> selected_session_id \<noteq> []
         \<and> Some selected_session_id \<noteq> session_id st
      then (st\<lparr>session_id := Some selected_session_id\<rparr>, True)
      else (st, False))"

text \<open>
  One run of the script, top to bottom. The inputs of a run are the widgets' values: the
  "New Chat" button, the select box, and the chat input (\<^verbatim>\<open>None\<close> when nothing was
  submitted). A run ends with a rerun request, with an uncaught exception, or by reaching
  the end of the script.
\<close>

record inputs =
  new_chat :: bool
  selected :: string
  chat_input :: "string option"

datatype outcome = Rerun | Uncaught exn | Finished

text \<open>The state a fresh browser session starts from.\<close>

definition init_session_state :: "string \<Rightarrow> session_state" where
  "init_session_state uid =
     \<lparr>session_id = None, sessions = [], messages = Map.empty, user_id = uid\<rparr>"

text \<open>Truthiness of \<^verbatim>\<open>session_id\<close>: \<^verbatim>\<open>None\<close> and the empty string are false.\<close>

fun truthy :: "string option \<Rightarrow> bool" where
  "truthy None = False"
| "truthy (Some s) = (s \<noteq> [])"

definition after_call ::
  "effect list \<times> session_state \<times> (exn + unit) \<Rightarrow> effect list \<times> session_state \<times> outcome" where
  "after_call r =
     (case r of
        (effs, st, Inl e) \<Rightarrow> (effs, st, Uncaught e)
      | (effs, st, Inr u) \<Rightarrow> (effs, st, Rerun))"

definition script ::
  "agent \<Rightarrow> session_state \<Rightarrow> inputs \<Rightarrow> effect list \<times> session_state \<times> outcome" where
  "script ag st inp =
     (if new_chat inp then after_call (create_new_session ag st)
      else case session_selector st (selected inp) of
             (st', True) \<Rightarrow> ([], st', Rerun)
           | (st', False) \<Rightarrow>
               if \<not> truthy (session_id st') then after_call (create_new_session ag st')
               else (case chat_input inp of
                       None \<Rightarrow> ([], st', Finished)
                     | Some prompt \<Rightarrow>
                         if prompt = [] then ([], st', Finished)
                         else after_call (chat_handler ag st' prompt)))"

section \<open>The command-line client \<^verbatim>\<open>use_agent.py\<close>\<close>

text \<open>
  What \<^verbatim>\<open>main\<close> does once it holds the remote agent and the user id: its calls to the agent
  and its prints, in order. \<open>Print_end_empty v\<close> is \<^verbatim>\<open>print(v, end="", flush=True)\<close>, which
  accepts any value; \<open>Print_response_header\<close> is the line printed before the stream is
  read.
\<close>

datatype console =
    Main_create_session string
  | Main_async_stream_query string "string option" string
  | Print_created_session string string
  | Print_error_creating_session exn
  | Print_user_query string
  | Print_response_header
  | Print_end_empty pyval
  | Print_stream_completed
  | Print_error_during_streaming exn

definition user_query :: string where
  "user_query = ''I want to invest in tech stocks. Can you suggest a strategy for a 10-year horizon with moderate risk?''"

fun main_parts_loop :: "pyval list \<Rightarrow> console list \<times> (exn + unit)" where
  "main_parts_loop [] = ([], Inr ())"
| "main_parts_loop (part # rest) =
     (case py_in ''text'' part of
        Inl e \<Rightarrow> ([], Inl e)
      | Inr False \<Rightarrow> main_parts_loop rest
      | Inr True \<Rightarrow>
          (case py_getitem part ''text'' of
             Inl e \<Rightarrow> ([], Inl e)
           | Inr v \<Rightarrow>
               (case main_parts_loop rest of
                  (outs, r) \<Rightarrow> (Print_end_empty v # outs, r))))"

text \<open>
  The condition \<^verbatim>\<open>"content" in event and "parts" in event["content"]\<close>: here no
  \<^verbatim>\<open>isinstance(event, dict)\<close> comes first.
\<close>

definition main_has_content_parts :: "pyval \<Rightarrow> exn + bool" where
  "main_has_content_parts event =
     (case py_in ''content'' event of
        Inl e \<Rightarrow> Inl e
      | Inr False \<Rightarrow> Inr False
      | Inr True \<Rightarrow>
          (case py_getitem event ''content'' of
             Inl e \<Rightarrow> Inl e
           | Inr c \<Rightarrow> py_in ''parts'' c))"

definition main_handle_event :: "pyval \<Rightarrow> console list \<times> (exn + unit)" where
  "main_handle_event event =
     (case main_has_content_parts event of
        Inl e \<Rightarrow> ([], Inl e)
      | Inr True \<Rightarrow>
          (case content_parts event of
             Inl e \<Rightarrow> ([], Inl e)
           | Inr parts \<Rightarrow> main_parts_loop parts)
      | Inr False \<Rightarrow>
          (case event of
             PStr s \<Rightarrow> ([Print_end_empty (PStr s)], Inr ())
           | _ \<Rightarrow> ([], Inr ())))"

fun main_stream_loop :: "stream_item list \<Rightarrow> console list \<times> (exn + unit)" where
  "main_stream_loop [] = ([], Inr ())"
| "main_stream_loop (Raise e # rest) = ([], Inl e)"
| "main_stream_loop (Yield event # rest) =
     (case main_handle_event event of
        (outs, Inl e) \<Rightarrow> (outs, Inl e)
      | (outs, Inr u) \<Rightarrow>
          (case main_stream_loop rest of
             (outs', r) \<Rightarrow> (outs @ outs', r)))"

text \<open>
  Steps 4 and 5 of \<^verbatim>\<open>main\<close>. Each of the two \<^verbatim>\<open>try\<close> blocks catches every exception and
  prints it; after a failed session creation \<^verbatim>\<open>main\<close> returns.
\<close>

definition main :: "agent \<Rightarrow> string \<Rightarrow> console list" where
  "main remote_agent uid =
     (case create_session remote_agent uid of
        Inl e \<Rightarrow> [Main_create_session uid, Print_error_creating_session e]
      | Inr session \<Rightarrow>
          [Main_create_session uid, Print_created_session (obj_id session) uid,
           Print_user_query user_query, Print_response_header,
           Main_async_stream_query uid (Some (obj_id session)) user_query]
          @ (case main_stream_loop
                    (async_stream_query remote_agent user_query uid (Some (obj_id session))) of
               (outs, Inl e) \<Rightarrow> outs @ [Print_error_during_streaming e]
             | (outs, Inr u) \<Rightarrow> outs @ [Print_stream_completed]))"

section \<open>The shapes of a response fragment\<close>

text \<open>
  The fragments of the interface: a structured event
  \<^verbatim>\<open>{content: {parts: [{text?: string}, ...]}}\<close>, or a raw string. \<open>is_part\<close> is a part: a
  dictionary whose \<^verbatim>\<open>text\<close> entry, when there is one, is a string.
\<close>

fun is_part :: "pyval \<Rightarrow> bool" where
  "is_part (PDict d) =
     (case map_of d ''text'' of None \<Rightarrow> True | Some (PStr t) \<Rightarrow> True | Some _ \<Rightarrow> False)"
| "is_part _ = False"

fun has_text :: "pyval \<Rightarrow> bool" where
  "has_text (PDict d) = (case map_of d ''text'' of Some (PStr t) \<Rightarrow> True | _ \<Rightarrow> False)"
| "has_text _ = False"

text \<open>The parts of a structured event; \<open>None\<close> when the value is not one.\<close>

fun event_parts :: "pyval \<Rightarrow> pyval list option" where
  "event_parts (PDict d) =
     (case map_of d ''content'' of
        Some (PDict c) \<Rightarrow>
          (case map_of c ''parts'' of
             Some (PList ps) \<Rightarrow> if list_all is_part ps then Some ps else None
           | _ \<Rightarrow> None)
      | _ \<Rightarrow> None)"
| "event_parts _ = None"

text \<open>
  A value of neither shape that the probing of \<^verbatim>\<open>streamlit_app.py\<close> passes over: not a
  dictionary and not a string, or a dictionary without \<^verbatim>\<open>content\<close>, or one whose
  \<^verbatim>\<open>content\<close> is a dictionary without \<^verbatim>\<open>parts\<close>.
\<close>

fun unknown_kind :: "pyval \<Rightarrow> bool" where
  "unknown_kind (PDict d) =
     (case map_of d ''content'' of
        None \<Rightarrow> True
      | Some (PDict c) \<Rightarrow> map_of c ''parts'' = None
      | Some _ \<Rightarrow> False)"
| "unknown_kind (PStr s) = False"
| "unknown_kind _ = True"

definition fragment :: "pyval \<Rightarrow> bool" where
  "fragment v \<longleftrightarrow> event_parts v \<noteq> None \<or> isinstance_str v \<or> unknown_kind v"

text \<open>A fragment that carries text: a raw string, or an event with a part that has text.\<close>

definition carries_text :: "pyval \<Rightarrow> bool" where
  "carries_text v \<longleftrightarrow>
     isinstance_str v \<or> (case event_parts v of None \<Rightarrow> False | Some ps \<Rightarrow> list_ex has_text ps)"

text \<open>
  The text a fragment contributes: the texts of its parts in order, or the raw string.
\<close>

fun part_text :: "pyval \<Rightarrow> string" where
  "part_text (PDict d) = (case map_of d ''text'' of Some (PStr t) \<Rightarrow> t | _ \<Rightarrow> [])"
| "part_text _ = []"

definition fragment_text :: "pyval \<Rightarrow> string" where
  "fragment_text v =
     (case v of
        PStr s \<Rightarrow> s
      | _ \<Rightarrow> (case event_parts v of None \<Rightarrow> [] | Some ps \<Rightarrow> concat (map part_text ps)))"

text \<open>The texts that the placeholder was redrawn with, cursor calls only.\<close>

fun observed :: "effect list \<Rightarrow> string list" where
  "observed [] = []"
| "observed (Markdown_cursor t # effs) = t # observed effs"
| "observed (e # effs) = observed effs"

text \<open>
  The invariant of the loops: from the accumulated text \<open>acc\<close>, every text shown extends
  \<open>acc\<close>, the texts shown form a chain of prefixes, and the text returned extends all of
  them.
\<close>

definition grows :: "string \<Rightarrow> effect list \<Rightarrow> exn + string \<Rightarrow> bool" where
  "grows acc effs r \<longleftrightarrow>
     sorted_wrt prefix (observed effs) \<and> (\<forall>t\<in>set (observed effs). prefix acc t)
     \<and> (case r of Inl e \<Rightarrow> True
         | Inr acc' \<Rightarrow> prefix acc acc' \<and> (\<forall>t\<in>set (observed effs). prefix t acc'))"

section \<open>Turn sequences and a concrete run\<close>

text \<open>
  A history made of request cycles that ran to their end: a user message followed by an
  assistant message, any number of times.
\<close>

fun turn_pairs :: "message list \<Rightarrow> bool" where
  "turn_pairs [] = True"
| "turn_pairs [u] = False"
| "turn_pairs (u # a # rest) =
     (role u = ''user'' \<and> role a = ''assistant'' \<and> turn_pairs rest)"

text \<open>
  A history whose roles strictly alternate, starting with the user: user, assistant,
  user, ... (the last message may be a user message still waiting for its reply).
\<close>

fun alternating :: "message list \<Rightarrow> bool" where
  "alternating [] = True"
| "alternating [u] = (role u = ''user'')"
| "alternating (u # a # rest) =
     (role u = ''user'' \<and> role a = ''assistant'' \<and> alternating rest)"

text \<open>The history stored under a key, empty when there is none.\<close>

definition history :: "session_state \<Rightarrow> string option \<Rightarrow> message list" where
  "history st k = (case messages st k of None \<Rightarrow> [] | Some ms \<Rightarrow> ms)"

text \<open>
  The run used as an example: the agent creates the session \<open>s1\<close>, answers a query with
  the two events \<^verbatim>\<open>{content:{parts:[{text:"Ticker "}]}}\<close> and
  \<^verbatim>\<open>{content:{parts:[{text:"GOOGL"}]}}\<close>, and then reports the session with a new state.
\<close>

definition text_event :: "string \<Rightarrow> pyval" where
  "text_event t = PDict [(''content'', PDict [(''parts'', PList [PDict [(''text'', PStr t)]])])]"

definition created_session :: session_obj where
  "created_session = \<lparr>obj_id = ''s1'', obj_rest = PDict [(''state'', PDict [])]\<rparr>"

definition fetched_session :: session_obj where
  "fetched_session =
     \<lparr>obj_id = ''s1'', obj_rest = PDict [(''state'', PDict [(''ticker'', PStr ''GOOGL'')])]\<rparr>"

definition scenario_agent :: agent where
  "scenario_agent =
     \<lparr>create_session = (\<lambda>uid. Inr created_session),
      async_stream_query =
        (\<lambda>message uid sid. [Yield (text_event ''Ticker ''), Yield (text_event ''GOOGL'')]),
      async_get_session = (\<lambda>sid uid. Inr fetched_session)\<rparr>"

text \<open>The same agent, with a stream that fails after its first event.\<close>

definition failing_agent :: agent where
  "failing_agent =
     scenario_agent\<lparr>async_stream_query :=
       (\<lambda>message uid sid. [Yield (text_event ''Ticker ''), Raise (AgentError ''reset'')])\<rparr>"

text \<open>The same agent, with a stream of a number followed by a string.\<close>

definition number_agent :: agent where
  "number_agent =
     scenario_agent\<lparr>async_stream_query :=
       (\<lambda>message uid sid. [Yield (PInt 5), Yield (PStr ''late'')])\<rparr>"

text \<open>The same agent, unable to create a session.\<close>

definition unreachable_agent :: agent where
  "unreachable_agent =
     scenario_agent\<lparr>create_session := (\<lambda>uid. Inl (AgentError ''unreachable''))\<rparr>"

text \<open>The state after the session \<open>s1\<close> of user \<open>u1\<close> was created, and one with a second session.\<close>

definition scenario_state :: session_state where
  "scenario_state =
     \<lparr>session_id = Some ''s1'', sessions = [created_session],
      messages = [Some ''s1'' \<mapsto> []], user_id = ''u1''\<rparr>"

text \<open>The state after a request cycle on \<open>s1\<close> whose stream failed: the user message only.\<close>

definition failed_state :: session_state where
  "failed_state =
     scenario_state\<lparr>messages := [Some ''s1'' \<mapsto> [\<lparr>role = ''user'', content = ''GOOGL''\<rparr>]]\<rparr>"

definition other_session :: session_obj where
  "other_session = \<lparr>obj_id = ''s0'', obj_rest = PDict [(''state'', PDict [])]\<rparr>"

definition two_sessions_state :: session_state where
  "two_sessions_state =
     \<lparr>session_id = Some ''s1'', sessions = [other_session, created_session],
      messages = [Some ''s0'' \<mapsto> [\<lparr>role = ''user'', content = ''hello''\<rparr>,
                                 \<lparr>role = ''assistant'', content = ''hi''\<rparr>],
                  Some ''s1'' \<mapsto> []],
      user_id = ''u1''\<rparr>"

section \<open>Properties of the response loop\<close>

lemma effect_cursor_only_parts:
  "parts_loop acc ps = (effs, r) \<Longrightarrow> effs = map Markdown_cursor (observed effs)"
  by (induction ps arbitrary: acc effs r)
     (auto split: sum.splits bool.splits prod.splits)

lemma handle_chunk_cursor_only:
  "handle_chunk acc c = (effs, r) \<Longrightarrow> effs = map Markdown_cursor (observed effs)"
  by (auto simp: handle_chunk_def split: sum.splits bool.splits pyval.splits
           dest: effect_cursor_only_parts)

lemma observed_append: "observed (xs @ ys) = observed xs @ observed ys"
  by (induction xs rule: observed.induct) auto

lemma observed_map_cursor: "observed (map Markdown_cursor ts) = ts"
  by (induction ts) auto

lemma stream_loop_cursor_only:
  "stream_loop acc items = (effs, r) \<Longrightarrow> effs = map Markdown_cursor (observed effs)"
proof (induction acc items arbitrary: effs r rule: stream_loop.induct)
  case (3 acc chunk rest)
  obtain e1 r1 where h: "handle_chunk acc chunk = (e1, r1)" by (cases "handle_chunk acc chunk")
  note c1 = handle_chunk_cursor_only[OF h]
  show ?case
  proof (cases r1)
    case (Inl e)
    with 3 h c1 show ?thesis by simp
  next
    case (Inr acc')
    obtain e2 r2 where s: "stream_loop acc' rest = (e2, r2)" by (cases "stream_loop acc' rest")
    from "3.IH"[OF h[symmetric] Inr s] have c2: "e2 = map Markdown_cursor (observed e2)" .
    from "3.prems" h Inr s have eq: "effs = e1 @ e2" by auto
    show ?thesis unfolding eq observed_append map_append using c1 c2 by metis
  qed
qed auto

lemma py_iadd_str_prefix: "py_iadd_str acc v = Inr acc' \<Longrightarrow> prefix acc acc'"
  by (cases v) auto

lemma parts_loop_grows: "parts_loop acc ps = (effs, r) \<Longrightarrow> grows acc effs r"
proof (induction ps arbitrary: acc effs r)
  case Nil
  then show ?case by (auto simp: grows_def)
next
  case (Cons p ps)
  show ?case
  proof (cases "py_in ''text'' p")
    case (Inl e)
    with Cons.prems show ?thesis by (auto simp: grows_def)
  next
    case (Inr b)
    show ?thesis
    proof (cases b)
      case False
      with Inr Cons show ?thesis by auto
    next
      case True
      show ?thesis
      proof (cases "py_getitem p ''text''")
        case (Inl e)
        with Inr True Cons.prems show ?thesis by (auto simp: grows_def)
      next
        case v: (Inr v)
        show ?thesis
        proof (cases "py_iadd_str acc v")
          case nope: (Inl e)
          from Cons.prems have "effs = []" "r = Inl e"
            by (simp_all add: Inr True v nope)
          then show ?thesis by (simp add: grows_def)
        next
          case a: (Inr acc')
          obtain e2 r2 where s: "parts_loop acc' ps = (e2, r2)" by (cases "parts_loop acc' ps")
          from Cons.IH[OF s] have g: "grows acc' e2 r2" .
          from a have p: "prefix acc acc'" by (rule py_iadd_str_prefix)
          from Cons.prems have eq: "effs = Markdown_cursor acc' # e2" "r = r2"
            by (simp_all add: Inr True v a s)
          show ?thesis using g p unfolding eq grows_def
            by (auto split: sum.splits intro: prefix_order.trans)
        qed
      qed
    qed
  qed
qed

lemma handle_chunk_grows: "handle_chunk acc c = (effs, r) \<Longrightarrow> grows acc effs r"
  by (auto simp: handle_chunk_def split: sum.splits bool.splits pyval.splits
           dest: parts_loop_grows) (auto simp: grows_def)

lemma stream_loop_grows: "stream_loop acc items = (effs, r) \<Longrightarrow> grows acc effs r"
proof (induction acc items arbitrary: effs r rule: stream_loop.induct)
  case (1 acc)
  then show ?case by (auto simp: grows_def)
next
  case (2 acc e rest)
  then show ?case by (auto simp: grows_def)
next
  case (3 acc chunk rest)
  obtain e1 r1 where h: "handle_chunk acc chunk = (e1, r1)" by (cases "handle_chunk acc chunk")
  note g1 = handle_chunk_grows[OF h]
  show ?case
  proof (cases r1)
    case (Inl e)
    with 3 h g1 show ?thesis by (auto simp: grows_def)
  next
    case (Inr acc')
    obtain e2 r2 where s: "stream_loop acc' rest = (e2, r2)" by (cases "stream_loop acc' rest")
    from "3.IH"[OF h[symmetric] Inr s] have g2: "grows acc' e2 r2" by simp
    from 3 h Inr s have eq: "effs = e1 @ e2" "r = r2" by auto
    show ?thesis using g1 g2 unfolding eq grows_def Inr
      by (auto simp: observed_append sorted_wrt_append split: sum.splits
               intro: prefix_order.trans)
  qed
qed

lemma parts_loop_parts:
  "list_all is_part ps \<Longrightarrow>
     snd (parts_loop acc ps) = Inr (acc @ concat (map part_text ps))
     \<and> (list_ex has_text ps \<longrightarrow> observed (fst (parts_loop acc ps)) \<noteq> [])"
proof (induction ps arbitrary: acc)
  case Nil
  then show ?case by simp
next
  case (Cons p ps)
  from Cons.prems obtain d where p: "p = PDict d" by (cases p) auto
  from Cons.prems have rest: "list_all is_part ps" by simp
  show ?case
  proof (cases "map_of d ''text''")
    case None
    with p Cons.IH[OF rest, of acc] show ?thesis by simp
  next
    case (Some v)
    with Cons.prems p obtain t where v: "v = PStr t" by (cases v) auto
    obtain e2 r2 where s: "parts_loop (acc @ t) ps = (e2, r2)"
      by (cases "parts_loop (acc @ t) ps")
    from Cons.IH[OF rest, of "acc @ t"] p Some v s show ?thesis
      by simp
  qed
qed

lemma event_parts_probe:
  "event_parts c = Some ps \<Longrightarrow> has_content_parts c = Inr True \<and> content_parts c = Inr ps"
  by (cases c)
     (auto simp: has_content_parts_def content_parts_def
           split: option.splits pyval.splits if_splits)

lemma event_parts_is_part: "event_parts c = Some ps \<Longrightarrow> list_all is_part ps"
  by (cases c) (auto split: option.splits pyval.splits if_splits)

lemma unknown_kind_skipped: "unknown_kind c \<Longrightarrow> handle_chunk acc c = ([], Inr acc)"
  by (cases c)
     (auto simp: handle_chunk_def has_content_parts_def split: option.splits pyval.splits)

lemma raw_string_appended:
  "handle_chunk acc (PStr s) = ([Markdown_cursor (acc @ s)], Inr (acc @ s))"
  by (simp add: handle_chunk_def has_content_parts_def)

lemma unknown_kind_text: "unknown_kind c \<Longrightarrow> fragment_text c = [] \<and> \<not> carries_text c"
  by (cases c) (auto simp: fragment_text_def carries_text_def split: option.splits pyval.splits)

lemma handle_chunk_fragment:
  assumes "fragment c"
  shows "snd (handle_chunk acc c) = Inr (acc @ fragment_text c)
         \<and> (carries_text c \<longrightarrow> observed (fst (handle_chunk acc c)) \<noteq> [])"
proof -
  consider ps where "event_parts c = Some ps" | s where "c = PStr s" | "unknown_kind c"
    using assms by (cases c) (auto simp: fragment_def)
  then show ?thesis
  proof cases
    case 1
    then obtain d where d: "c = PDict d" by (cases c) auto
    from 1 have h: "handle_chunk acc c = parts_loop acc ps"
      using event_parts_probe[OF 1] by (simp add: handle_chunk_def)
    from 1 d have t: "fragment_text c = concat (map part_text ps)"
      and ct: "carries_text c = list_ex has_text ps"
      by (simp_all add: fragment_text_def carries_text_def del: event_parts.simps)
    from parts_loop_parts[OF event_parts_is_part[OF 1], of acc] show ?thesis
      unfolding h t ct .
  next
    case 2
    then show ?thesis by (simp add: raw_string_appended fragment_text_def)
  next
    case 3
    then show ?thesis using unknown_kind_text[OF 3] by (simp add: unknown_kind_skipped)
  qed
qed



lemma stream_loop_append:
  "stream_loop acc (xs @ ys) =
     (case stream_loop acc xs of
        (e1, Inl e) \<Rightarrow> (e1, Inl e)
      | (e1, Inr acc') \<Rightarrow> (case stream_loop acc' ys of (e2, r) \<Rightarrow> (e1 @ e2, r)))"
proof (induction acc xs rule: stream_loop.induct)
  case (3 acc chunk rest)
  obtain e1 r1 where h: "handle_chunk acc chunk = (e1, r1)" by (cases "handle_chunk acc chunk")
  show ?case
  proof (cases r1)
    case (Inl e)
    with h show ?thesis by simp
  next
    case (Inr acc')
    from "3.IH"[OF h[symmetric] Inr] h Inr show ?thesis
      by (simp split: prod.splits sum.splits)
  qed
qed (simp_all split: prod.splits)

lemma stream_loop_fragments:
  "\<forall>c\<in>set cs. fragment c \<Longrightarrow>
     snd (stream_loop acc (map Yield cs)) = Inr (acc @ concat (map fragment_text cs))
     \<and> ((\<exists>c\<in>set cs. carries_text c) \<longrightarrow>
          observed (fst (stream_loop acc (map Yield cs))) \<noteq> [])"
proof (induction cs arbitrary: acc)
  case Nil
  then show ?case by simp
next
  case (Cons c cs)
  from Cons.prems have fc: "fragment c" and rest: "\<forall>c\<in>set cs. fragment c" by auto
  obtain e1 where h: "handle_chunk acc c = (e1, Inr (acc @ fragment_text c))"
    using handle_chunk_fragment[OF fc, of acc] by (cases "handle_chunk acc c") auto
  from handle_chunk_fragment[OF fc, of acc] h have o1: "carries_text c \<longrightarrow> observed e1 \<noteq> []"
    by simp
  from Cons.IH[OF rest, of "acc @ fragment_text c"] h o1 show ?case
    by (auto simp: observed_append split: prod.splits)
qed

lemma parts_loop_last:
  "parts_loop acc ps = (effs, Inr acc') \<Longrightarrow> last (acc # observed effs) = acc'"
proof (induction ps arbitrary: acc effs)
  case Nil
  then show ?case by simp
next
  case (Cons p ps)
  show ?case
  proof (cases "py_in ''text'' p")
    case (Inl e)
    with Cons.prems show ?thesis by simp
  next
    case (Inr b)
    show ?thesis
    proof (cases b)
      case False
      with Inr Cons show ?thesis by simp
    next
      case True
      from Cons.prems Inr True obtain v where v: "py_getitem p ''text'' = Inr v"
        by (cases "py_getitem p ''text''") auto
      from Cons.prems Inr True v obtain a where a: "py_iadd_str acc v = Inr a"
        by (cases "py_iadd_str acc v") auto
      obtain e2 r2 where s: "parts_loop a ps = (e2, r2)" by (cases "parts_loop a ps")
      from Cons.prems have eq: "effs = Markdown_cursor a # e2" "r2 = Inr acc'"
        by (simp_all add: Inr True v a s)
      from Cons.IH[of a e2] s eq show ?thesis by simp
    qed
  qed
qed

lemma handle_chunk_last:
  "handle_chunk acc c = (effs, Inr acc') \<Longrightarrow> last (acc # observed effs) = acc'"
  by (auto simp: handle_chunk_def split: sum.splits bool.splits pyval.splits
           dest: parts_loop_last)

lemma stream_loop_last:
  "stream_loop acc items = (effs, Inr acc') \<Longrightarrow> last (acc # observed effs) = acc'"
proof (induction acc items arbitrary: effs rule: stream_loop.induct)
  case (3 acc chunk rest)
  obtain e1 r1 where h: "handle_chunk acc chunk = (e1, r1)" by (cases "handle_chunk acc chunk")
  from "3.prems" h obtain a where r1: "r1 = Inr a" by (cases r1) auto
  obtain e2 r2 where s: "stream_loop a rest = (e2, r2)" by (cases "stream_loop a rest")
  from "3.prems" h r1 s have eq: "effs = e1 @ e2" "r2 = Inr acc'" by auto
  from "3.IH"[OF h[symmetric] r1, of e2] s eq have l2: "last (a # observed e2) = acc'" by simp
  from handle_chunk_last[of acc chunk e1 a] h r1 have l1: "last (acc # observed e1) = a" by simp
  show ?case using l1 l2 unfolding eq observed_append
    by (cases "observed e2 = []") (auto simp: last_append)
qed auto

lemma append_user_message_simps:
  "session_id (append_user_message st prompt) = session_id st"
  "user_id (append_user_message st prompt) = user_id st"
  "sessions (append_user_message st prompt) = sessions st"
  "messages (append_user_message st prompt) (session_id st)
     = Some (history st (session_id st) @ [\<lparr>role = ''user'', content = prompt\<rparr>])"
  "k \<noteq> session_id st \<Longrightarrow> messages (append_user_message st prompt) k = messages st k"
  by (simp_all add: append_user_message_def history_def)

lemma chat_handler_unfold:
  "chat_handler ag st prompt =
     (let sid = session_id st; uid = user_id st;
          u = \<lparr>role = ''user'', content = prompt\<rparr>;
          st1 = append_user_message st prompt
      in case stream_loop [] (async_stream_query ag prompt uid sid) of
           (effs, Inl e) \<Rightarrow>
             (Append_message sid u # Async_stream_query prompt uid sid # effs, st1, Inl e)
         | (effs, Inr full) \<Rightarrow>
             (case async_get_session ag sid uid of
                Inl e \<Rightarrow>
                  (Append_message sid u # Async_stream_query prompt uid sid # effs
                     @ [Markdown full, Async_get_session sid uid], st1, Inl e)
              | Inr upd \<Rightarrow>
                  (Append_message sid u # Async_stream_query prompt uid sid # effs
                     @ [Markdown full, Async_get_session sid uid,
                        Append_message sid \<lparr>role = ''assistant'', content = full\<rparr>],
                   st1\<lparr>messages := (messages st1)(sid \<mapsto>
                          history st sid @ [u, \<lparr>role = ''assistant'', content = full\<rparr>]),
                       sessions := update_session_obj (sessions st) sid upd\<rparr>,
                   Inr ())))"
  by (simp add: chat_handler_def get_response_and_session_def Let_def append_user_message_simps
           split: prod.splits sum.splits)


lemma sorted_wrt_prefix_total:
  assumes "sorted_wrt prefix xs" "s \<in> set xs" "t \<in> set xs"
  shows "prefix s t \<or> prefix t s"
proof -
  from assms obtain i j where ij: "i < length xs" "j < length xs" "xs ! i = s" "xs ! j = t"
    by (auto simp: in_set_conv_nth)
  consider "i < j" | "i = j" | "j < i" by linarith
  then show ?thesis
  proof cases
    case 1
    with assms(1) ij show ?thesis by (auto simp: sorted_wrt_iff_nth_less)
  next
    case 2
    with ij show ?thesis by auto
  next
    case 3
    with assms(1) ij show ?thesis by (auto simp: sorted_wrt_iff_nth_less)
  qed
qed

lemma observed_get_response:
  "observed (fst (get_response_and_session ag st prompt))
     = observed (fst (stream_loop [] (async_stream_query ag prompt (user_id st) (session_id st))))"
  by (simp add: get_response_and_session_def observed_append split: prod.splits sum.splits)

lemma stream_loop_fragments_then_raise:
  assumes "\<forall>c\<in>set cs. fragment c"
  shows "\<exists>ts. stream_loop [] (map Yield cs @ Raise e # rest) = (map Markdown_cursor ts, Inl e)
              \<and> last ([] # ts) = concat (map fragment_text cs)"
proof -
  obtain e1 r1 where p: "stream_loop [] (map Yield cs) = (e1, r1)"
    by (cases "stream_loop [] (map Yield cs)")
  from stream_loop_fragments[OF assms, of "[]"] p
  have r1: "r1 = Inr (concat (map fragment_text cs))" by simp
  from stream_loop_cursor_only[OF p] have c: "e1 = map Markdown_cursor (observed e1)" .
  from stream_loop_last[OF p[unfolded r1]]
  have l: "last ([] # observed e1) = concat (map fragment_text cs)" .
  have "stream_loop [] (map Yield cs @ Raise e # rest) = (e1, Inl e)"
    unfolding stream_loop_append by (simp add: p r1)
  with c l show ?thesis by metis
qed

section \<open>The claims\<close>

text \<open>
  C2. For every stream, the accumulated texts that \<^verbatim>\<open>get_response_and_session\<close> passes to
  the placeholder, one call per appended piece of text, grow monotonically: each one is a
  prefix of every later one, so any two of them are comparable by the prefix relation.
  And when the stream begins with fragments of which at least one carries text (whether
  the stream then ends, goes on or raises), the placeholder is redrawn at least once.
\<close>

theorem observer_prefix_chain:
  "sorted_wrt prefix (observed (fst (get_response_and_session ag st prompt)))
   \<and> (\<forall>s \<in> set (observed (fst (get_response_and_session ag st prompt))).
        \<forall>t \<in> set (observed (fst (get_response_and_session ag st prompt))).
          prefix s t \<or> prefix t s)
   \<and> ((\<forall>c \<in> set cs. fragment c) \<and> (\<exists>c \<in> set cs. carries_text c)
        \<and> async_stream_query ag prompt (user_id st) (session_id st) = map Yield cs @ rest
        \<longrightarrow> observed (fst (get_response_and_session ag st prompt)) \<noteq> [])"
proof -
  let ?items = "async_stream_query ag prompt (user_id st) (session_id st)"
  let ?obs = "observed (fst (get_response_and_session ag st prompt))"
  obtain effs r where s: "stream_loop [] ?items = (effs, r)" by (cases "stream_loop [] ?items")
  have obs: "?obs = observed effs" by (simp add: observed_get_response s)
  from stream_loop_grows[OF s] have chain: "sorted_wrt prefix ?obs"
    by (simp add: grows_def obs)
  have total: "\<forall>s \<in> set ?obs. \<forall>t \<in> set ?obs. prefix s t \<or> prefix t s"
    using sorted_wrt_prefix_total[OF chain] by blast
  have once: "?obs \<noteq> []"
    if f: "\<forall>c \<in> set cs. fragment c" and t: "\<exists>c \<in> set cs. carries_text c"
      and eq: "?items = map Yield cs @ rest"
  proof -
    obtain e1 r1 where p: "stream_loop [] (map Yield cs) = (e1, r1)"
      by (cases "stream_loop [] (map Yield cs)")
    from stream_loop_fragments[OF f, of "[]"] p t
    have r1: "r1 = Inr (concat (map fragment_text cs))" and ne: "observed e1 \<noteq> []" by auto
    obtain e2 r2 where q: "stream_loop (concat (map fragment_text cs)) rest = (e2, r2)"
      by (cases "stream_loop (concat (map fragment_text cs)) rest")
    have "stream_loop [] ?items = (e1 @ e2, r2)"
      unfolding eq stream_loop_append by (simp add: p r1 q)
    with s have "effs = e1 @ e2" by simp
    with ne show ?thesis by (simp add: obs observed_append)
  qed
  from chain total once show ?thesis by blast
qed

lemma fragment_text_event: "fragment (text_event t)" "carries_text (text_event t)"
  by (simp_all add: fragment_def carries_text_def text_event_def)

lemma handle_text_event:
  "handle_chunk acc (text_event t) = ([Markdown_cursor (acc @ t)], Inr (acc @ t))"
  by (simp add: handle_chunk_def has_content_parts_def content_parts_def text_event_def)

theorem observer_prefix_chain_witness:
  "fragment (text_event ''Ticker '') \<and> fragment (text_event ''GOOGL'')
   \<and> carries_text (text_event ''Ticker '')
   \<and> async_stream_query scenario_agent ''GOOGL'' (user_id scenario_state)
        (session_id scenario_state)
      = map Yield [text_event ''Ticker '', text_event ''GOOGL''] @ []
   \<and> observed (fst (get_response_and_session scenario_agent scenario_state ''GOOGL''))
      = [''Ticker '', ''Ticker GOOGL'']
   \<and> sorted_wrt prefix
        (observed (fst (get_response_and_session scenario_agent scenario_state ''GOOGL'')))
   \<and> observed (fst (get_response_and_session scenario_agent scenario_state ''GOOGL'')) \<noteq> []"
proof -
  have q: "async_stream_query scenario_agent ''GOOGL'' (user_id scenario_state)
        (session_id scenario_state)
      = map Yield [text_event ''Ticker '', text_event ''GOOGL''] @ []"
    by (simp add: scenario_agent_def)
  have f: "\<forall>c \<in> set [text_event ''Ticker '', text_event ''GOOGL'']. fragment c"
    by (simp add: fragment_text_event)
  have t: "\<exists>c \<in> set [text_event ''Ticker '', text_event ''GOOGL'']. carries_text c"
    by (simp add: fragment_text_event)
  have v: "observed (fst (get_response_and_session scenario_agent scenario_state ''GOOGL''))
      = [''Ticker '', ''Ticker GOOGL'']"
    by (simp add: get_response_and_session_def scenario_agent_def handle_text_event)
  from observer_prefix_chain[of scenario_agent scenario_state "''GOOGL''"
      "[text_event ''Ticker '', text_event ''GOOGL'']" "[]"] f t q
  have "sorted_wrt prefix
        (observed (fst (get_response_and_session scenario_agent scenario_state ''GOOGL'')))"
    and "observed (fst (get_response_and_session scenario_agent scenario_state ''GOOGL'')) \<noteq> []"
    by blast+
  with q v show ?thesis by (simp add: fragment_text_event)
qed

text \<open>
  C1, as the code has it. When the stream yields fragments and then raises, the loop
  stops and the exception of the stream itself leaves the handler, unwrapped. The text
  accumulated from the fragments consumed so far is the last text the placeholder was
  redrawn with (the empty text when there was no redraw), and it is not handed to the
  caller. \<^verbatim>\<open>async_get_session\<close> is not called, the list of sessions is untouched, no
  assistant message is appended, and the user message appended before the query stays in
  the history of the active session.
\<close>

theorem stream_failure_propagates:
  assumes "async_stream_query ag prompt (user_id st) (session_id st)
             = map Yield cs @ Raise e # rest"
      and "\<forall>c \<in> set cs. fragment c"
  shows "\<exists>ts. chat_handler ag st prompt =
                (Append_message (session_id st) \<lparr>role = ''user'', content = prompt\<rparr>
                   # Async_stream_query prompt (user_id st) (session_id st)
                   # map Markdown_cursor ts,
                 st\<lparr>messages := (messages st)(session_id st \<mapsto>
                      history st (session_id st) @ [\<lparr>role = ''user'', content = prompt\<rparr>])\<rparr>,
                 Inl e)
              \<and> last ([] # ts) = concat (map fragment_text cs)"
proof -
  from stream_loop_fragments_then_raise[OF assms(2), of e rest]
  obtain ts where ts: "stream_loop [] (map Yield cs @ Raise e # rest) = (map Markdown_cursor ts, Inl e)"
    and l: "last ([] # ts) = concat (map fragment_text cs)" by blast
  have "chat_handler ag st prompt =
                (Append_message (session_id st) \<lparr>role = ''user'', content = prompt\<rparr>
                   # Async_stream_query prompt (user_id st) (session_id st)
                   # map Markdown_cursor ts,
                 st\<lparr>messages := (messages st)(session_id st \<mapsto>
                      history st (session_id st) @ [\<lparr>role = ''user'', content = prompt\<rparr>])\<rparr>,
                 Inl e)"
    by (simp add: chat_handler_unfold Let_def assms(1) ts append_user_message_def history_def)
  with l show ?thesis by blast
qed

theorem stream_failure_propagates_witness:
  "async_stream_query failing_agent ''GOOGL'' (user_id scenario_state) (session_id scenario_state)
     = map Yield [text_event ''Ticker ''] @ Raise (AgentError ''reset'') # []
   \<and> fragment (text_event ''Ticker '')
   \<and> (\<exists>ts. chat_handler failing_agent scenario_state ''GOOGL'' =
                (Append_message (Some ''s1'') \<lparr>role = ''user'', content = ''GOOGL''\<rparr>
                   # Async_stream_query ''GOOGL'' ''u1'' (Some ''s1'')
                   # map Markdown_cursor ts,
                 scenario_state\<lparr>messages :=
                      [Some ''s1'' \<mapsto> [\<lparr>role = ''user'', content = ''GOOGL''\<rparr>]]\<rparr>,
                 Inl (AgentError ''reset''))
              \<and> last ([] # ts) = ''Ticker '')"
proof -
  have q: "async_stream_query failing_agent ''GOOGL'' (user_id scenario_state)
             (session_id scenario_state)
           = map Yield [text_event ''Ticker ''] @ Raise (AgentError ''reset'') # []"
    by (simp add: failing_agent_def scenario_agent_def)
  have f: "\<forall>c \<in> set [text_event ''Ticker '']. fragment c"
    by (simp add: fragment_text_event)
  have t: "concat (map fragment_text [text_event ''Ticker '']) = ''Ticker ''"
    by (simp add: fragment_text_def text_event_def)
  have m: "(messages scenario_state)(session_id scenario_state \<mapsto>
             history scenario_state (session_id scenario_state)
               @ [\<lparr>role = ''user'', content = ''GOOGL''\<rparr>])
           = [Some ''s1'' \<mapsto> [\<lparr>role = ''user'', content = ''GOOGL''\<rparr>]]"
    by (simp add: scenario_state_def history_def)
  from stream_failure_propagates[OF q f] show ?thesis
    unfolding t m using q by (simp add: scenario_state_def fragment_text_event)
qed

text \<open>
  C1 as stated fails on the stream that yields the event with text "Ticker " and then
  raises: the handler ends with the stream's exception, \<^verbatim>\<open>async_get_session\<close> is not called
  and the history holds the user message only.
\<close>

theorem partial_text_not_committed:
  "chat_handler failing_agent scenario_state ''GOOGL'' =
     ([Append_message (Some ''s1'') \<lparr>role = ''user'', content = ''GOOGL''\<rparr>,
       Async_stream_query ''GOOGL'' ''u1'' (Some ''s1''),
       Markdown_cursor ''Ticker ''],
      scenario_state\<lparr>messages := [Some ''s1'' \<mapsto> [\<lparr>role = ''user'', content = ''GOOGL''\<rparr>]]\<rparr>,
      Inl (AgentError ''reset''))
   \<and> Async_get_session (Some ''s1'') ''u1''
        \<notin> set (fst (chat_handler failing_agent scenario_state ''GOOGL''))
   \<and> messages (fst (snd (chat_handler failing_agent scenario_state ''GOOGL''))) (Some ''s1'')
        \<noteq> Some [\<lparr>role = ''user'', content = ''GOOGL''\<rparr>,
                 \<lparr>role = ''assistant'', content = ''Ticker ''\<rparr>]"
proof -
  have "chat_handler failing_agent scenario_state ''GOOGL'' =
     ([Append_message (Some ''s1'') \<lparr>role = ''user'', content = ''GOOGL''\<rparr>,
       Async_stream_query ''GOOGL'' ''u1'' (Some ''s1''),
       Markdown_cursor ''Ticker ''],
      scenario_state\<lparr>messages := [Some ''s1'' \<mapsto> [\<lparr>role = ''user'', content = ''GOOGL''\<rparr>]]\<rparr>,
      Inl (AgentError ''reset''))"
    by (simp add: chat_handler_unfold Let_def failing_agent_def scenario_agent_def scenario_state_def
          handle_text_event append_user_message_def)
  then show ?thesis by simp
qed

text \<open>
  C3. The run of the example: from the state of a fresh client of user \<open>u1\<close>, a first run of
  the script creates the session \<open>s1\<close>. With the message "GOOGL" submitted and a stream that
  yields the events with texts "Ticker " and "GOOGL" and ends, the text that
  \<^verbatim>\<open>get_response_and_session\<close> returns is "Ticker GOOGL", the assistant message appended is
  "Ticker GOOGL", and the history of \<open>s1\<close> is the user message "GOOGL" followed by the
  assistant message "Ticker GOOGL".
\<close>

theorem googl_scenario:
  "script scenario_agent (init_session_state ''u1'')
       \<lparr>new_chat = False, selected = [], chat_input = None\<rparr>
     = ([Create_session ''u1''], scenario_state, Rerun)
   \<and> get_response_and_session scenario_agent
         (append_user_message scenario_state ''GOOGL'') ''GOOGL''
     = ([Async_stream_query ''GOOGL'' ''u1'' (Some ''s1''),
         Markdown_cursor ''Ticker '', Markdown_cursor ''Ticker GOOGL'',
         Markdown ''Ticker GOOGL'', Async_get_session (Some ''s1'') ''u1''],
        Inr (''Ticker GOOGL'', fetched_session))
   \<and> script scenario_agent scenario_state
       \<lparr>new_chat = False, selected = ''s1'', chat_input = Some ''GOOGL''\<rparr>
     = ([Append_message (Some ''s1'') \<lparr>role = ''user'', content = ''GOOGL''\<rparr>,
         Async_stream_query ''GOOGL'' ''u1'' (Some ''s1''),
         Markdown_cursor ''Ticker '', Markdown_cursor ''Ticker GOOGL'',
         Markdown ''Ticker GOOGL'', Async_get_session (Some ''s1'') ''u1'',
         Append_message (Some ''s1'') \<lparr>role = ''assistant'', content = ''Ticker GOOGL''\<rparr>],
        scenario_state
          \<lparr>messages := [Some ''s1'' \<mapsto> [\<lparr>role = ''user'', content = ''GOOGL''\<rparr>,
                                        \<lparr>role = ''assistant'', content = ''Ticker GOOGL''\<rparr>]],
           sessions := [fetched_session]\<rparr>,
        Rerun)"
proof -
  have a: "script scenario_agent (init_session_state ''u1'')
       \<lparr>new_chat = False, selected = [], chat_input = None\<rparr>
     = ([Create_session ''u1''], scenario_state, Rerun)"
    by (simp add: script_def session_selector_def init_session_state_def after_call_def
          create_new_session_def scenario_agent_def scenario_state_def created_session_def)
  have b: "get_response_and_session scenario_agent
         (append_user_message scenario_state ''GOOGL'') ''GOOGL''
     = ([Async_stream_query ''GOOGL'' ''u1'' (Some ''s1''),
         Markdown_cursor ''Ticker '', Markdown_cursor ''Ticker GOOGL'',
         Markdown ''Ticker GOOGL'', Async_get_session (Some ''s1'') ''u1''],
        Inr (''Ticker GOOGL'', fetched_session))"
    by (simp add: get_response_and_session_def append_user_message_def scenario_agent_def
          scenario_state_def handle_text_event)
  have c: "script scenario_agent scenario_state
       \<lparr>new_chat = False, selected = ''s1'', chat_input = Some ''GOOGL''\<rparr>
     = ([Append_message (Some ''s1'') \<lparr>role = ''user'', content = ''GOOGL''\<rparr>,
         Async_stream_query ''GOOGL'' ''u1'' (Some ''s1''),
         Markdown_cursor ''Ticker '', Markdown_cursor ''Ticker GOOGL'',
         Markdown ''Ticker GOOGL'', Async_get_session (Some ''s1'') ''u1'',
         Append_message (Some ''s1'') \<lparr>role = ''assistant'', content = ''Ticker GOOGL''\<rparr>],
        scenario_state
          \<lparr>messages := [Some ''s1'' \<mapsto> [\<lparr>role = ''user'', content = ''GOOGL''\<rparr>,
                                        \<lparr>role = ''assistant'', content = ''Ticker GOOGL''\<rparr>]],
           sessions := [fetched_session]\<rparr>,
        Rerun)"
    by (simp add: script_def session_selector_def after_call_def chat_handler_unfold Let_def
          scenario_agent_def scenario_state_def handle_text_event append_user_message_def
          history_def created_session_def)
  from a b c show ?thesis by simp
qed

text \<open>
  C4 does not hold of the code. In \<^verbatim>\<open>streamlit_app.py\<close> the fragment \<^verbatim>\<open>{"content": None}\<close>, a
  dictionary without the content/parts shape, raises TypeError in the test
  \<^verbatim>\<open>"parts" in chunk["content"]\<close>, and the string fragment after it is never consumed. In
  \<^verbatim>\<open>use_agent.py\<close>, whose test has no \<^verbatim>\<open>isinstance(event, dict)\<close>, the fragment \<^verbatim>\<open>5\<close> raises
  TypeError in \<^verbatim>\<open>"content" in event\<close>; \<^verbatim>\<open>main\<close> prints the error and the stream is abandoned.
  The loop of \<^verbatim>\<open>streamlit_app.py\<close> passes over the same fragment \<^verbatim>\<open>5\<close>.
\<close>

theorem unknown_fragment_raises:
  "stream_loop [] [Yield (PDict [(''content'', PNone)]), Yield (PStr ''late'')]
     = ([], Inl TypeError)
   \<and> main_stream_loop [Yield (PInt 5), Yield (PStr ''late'')] = ([], Inl TypeError)
   \<and> main number_agent ''u1''
     = [Main_create_session ''u1'', Print_created_session ''s1'' ''u1'',
        Print_user_query user_query, Print_response_header,
        Main_async_stream_query ''u1'' (Some ''s1'') user_query,
        Print_error_during_streaming TypeError]
   \<and> stream_loop [] [Yield (PInt 5), Yield (PStr ''late'')]
     = ([Markdown_cursor ''late''], Inr ''late'')"
  by (simp add: handle_chunk_def has_content_parts_def main_handle_event_def
        main_has_content_parts_def main_def number_agent_def scenario_agent_def
        created_session_def)


lemma turn_pairs_append:
  "turn_pairs xs \<Longrightarrow> role u = ''user'' \<Longrightarrow> role a = ''assistant'' \<Longrightarrow> turn_pairs (xs @ [u, a])"
  by (induction xs rule: turn_pairs.induct) auto

lemma chat_handler_keeps:
  "session_id (fst (snd (chat_handler ag st prompt))) = session_id st"
  "user_id (fst (snd (chat_handler ag st prompt))) = user_id st"
  by (simp_all add: chat_handler_unfold Let_def append_user_message_simps
        split: prod.splits sum.splits)

lemma turn_pairs_then_user:
  "turn_pairs xs \<Longrightarrow> role u = ''user'' \<Longrightarrow> alternating (xs @ [u])"
  by (induction xs rule: turn_pairs.induct) auto

lemma turn_pairs_alternating: "turn_pairs xs \<Longrightarrow> alternating xs"
  by (induction xs rule: turn_pairs.induct) auto

text \<open>
  C5, as the code has it. In every request cycle, whatever the agent does: the first
  effect of the handler is the append of the user message, and the stream query comes
  after it. When the handler fails (the stream, the loop body or the session fetch
  raises), nothing else is appended, and the history of the active session is the old one
  followed by the user message alone. When the handler runs to its end, the assistant
  message is appended last, after the redraws of the stream, the final redraw and the
  session fetch, and the history is the old one followed by the user message and the
  assistant message, in this order. So a history only grows at its end, the messages a
  cycle appends start with the user's, and an assistant message is always preceded by the
  user message of its own cycle. The roles of the whole history strictly alternate as long
  as every earlier cycle ran to its end: from a history of user/assistant pairs, a failed
  cycle gives an alternating history that ends with the user message, and a cycle that
  runs to its end gives a history of user/assistant pairs again.
\<close>

theorem turn_ordering:
  "\<exists>effs st' r.
     chat_handler ag st prompt =
       (Append_message (session_id st) \<lparr>role = ''user'', content = prompt\<rparr>
          # Async_stream_query prompt (user_id st) (session_id st) # effs, st', r)
     \<and> (case r of
          Inl e \<Rightarrow>
            (\<forall>k m. Append_message k m \<notin> set effs)
            \<and> messages st' (session_id st)
                = Some (history st (session_id st) @ [\<lparr>role = ''user'', content = prompt\<rparr>])
            \<and> (turn_pairs (history st (session_id st))
                 \<longrightarrow> alternating (history st' (session_id st)))
        | Inr x \<Rightarrow>
            (\<exists>ts full.
               effs = map Markdown_cursor ts
                        @ [Markdown full, Async_get_session (session_id st) (user_id st),
                           Append_message (session_id st)
                             \<lparr>role = ''assistant'', content = full\<rparr>]
               \<and> messages st' (session_id st)
                   = Some (history st (session_id st)
                             @ [\<lparr>role = ''user'', content = prompt\<rparr>,
                                \<lparr>role = ''assistant'', content = full\<rparr>])
               \<and> (turn_pairs (history st (session_id st))
                    \<longrightarrow> turn_pairs (history st' (session_id st))
                        \<and> alternating (history st' (session_id st)))))"
proof -
  let ?items = "async_stream_query ag prompt (user_id st) (session_id st)"
  obtain e1 r1 where s: "stream_loop [] ?items = (e1, r1)" by (cases "stream_loop [] ?items")
  from stream_loop_cursor_only[OF s] have c: "e1 = map Markdown_cursor (observed e1)" .
  have noapp: "\<forall>k m. Append_message k m \<notin> set (map Markdown_cursor ts)" for ts
    by auto
  show ?thesis
  proof (cases r1)
    case (Inl e)
    have "\<forall>k m. Append_message k m \<notin> set e1" using c noapp by metis
    then show ?thesis
      by (simp add: chat_handler_unfold Let_def s Inl append_user_message_simps
            history_def turn_pairs_then_user)
  next
    case full: (Inr full)
    show ?thesis
    proof (cases "async_get_session ag (session_id st) (user_id st)")
      case (Inl e)
      have "\<forall>k m. Append_message k m \<notin> set e1" using c noapp by metis
      then show ?thesis
        by (simp add: chat_handler_unfold Let_def s full Inl append_user_message_simps
              history_def turn_pairs_then_user)
    next
      case (Inr upd)
      have "e1 @ [Markdown full, Async_get_session (session_id st) (user_id st),
                  Append_message (session_id st) \<lparr>role = ''assistant'', content = full\<rparr>]
            = map Markdown_cursor (observed e1)
                @ [Markdown full, Async_get_session (session_id st) (user_id st),
                   Append_message (session_id st) \<lparr>role = ''assistant'', content = full\<rparr>]"
        using c by simp
      then show ?thesis
        by (simp add: chat_handler_unfold Let_def s full Inr history_def turn_pairs_append
              turn_pairs_alternating) blast
    qed
  qed
qed

lemma scenario_cycle:
  "chat_handler scenario_agent scenario_state ''GOOGL'' =
     ([Append_message (Some ''s1'') \<lparr>role = ''user'', content = ''GOOGL''\<rparr>,
       Async_stream_query ''GOOGL'' ''u1'' (Some ''s1''),
       Markdown_cursor ''Ticker '', Markdown_cursor ''Ticker GOOGL'',
       Markdown ''Ticker GOOGL'', Async_get_session (Some ''s1'') ''u1'',
       Append_message (Some ''s1'') \<lparr>role = ''assistant'', content = ''Ticker GOOGL''\<rparr>],
      scenario_state
        \<lparr>messages := [Some ''s1'' \<mapsto> [\<lparr>role = ''user'', content = ''GOOGL''\<rparr>,
                                      \<lparr>role = ''assistant'', content = ''Ticker GOOGL''\<rparr>]],
         sessions := [fetched_session]\<rparr>,
      Inr ())"
  by (simp add: chat_handler_unfold Let_def scenario_agent_def scenario_state_def
        handle_text_event append_user_message_def history_def created_session_def)

text \<open>
  The theorem at the state that holds one user/assistant pair already (the state after the
  example cycle), once with the stream that fails and once with the stream that ends.
\<close>

theorem turn_ordering_witness:
  "turn_pairs (history (fst (snd (chat_handler scenario_agent scenario_state ''GOOGL'')))
                 (Some ''s1''))
   \<and> snd (snd (chat_handler failing_agent
                  (fst (snd (chat_handler scenario_agent scenario_state ''GOOGL''))) ''AAPL''))
      = Inl (AgentError ''reset'')
   \<and> alternating (history (fst (snd (chat_handler failing_agent
                  (fst (snd (chat_handler scenario_agent scenario_state ''GOOGL''))) ''AAPL'')))
                 (Some ''s1''))
   \<and> snd (snd (chat_handler scenario_agent
                  (fst (snd (chat_handler scenario_agent scenario_state ''GOOGL''))) ''AAPL''))
      = Inr ()
   \<and> turn_pairs (history (fst (snd (chat_handler scenario_agent
                  (fst (snd (chat_handler scenario_agent scenario_state ''GOOGL''))) ''AAPL'')))
                 (Some ''s1''))
   \<and> history (fst (snd (chat_handler scenario_agent
                  (fst (snd (chat_handler scenario_agent scenario_state ''GOOGL''))) ''AAPL'')))
        (Some ''s1'')
      = [\<lparr>role = ''user'', content = ''GOOGL''\<rparr>,
         \<lparr>role = ''assistant'', content = ''Ticker GOOGL''\<rparr>,
         \<lparr>role = ''user'', content = ''AAPL''\<rparr>,
         \<lparr>role = ''assistant'', content = ''Ticker GOOGL''\<rparr>]"
proof -
  let ?st1 = "fst (snd (chat_handler scenario_agent scenario_state ''GOOGL''))"
  have sid: "session_id ?st1 = Some ''s1''"
    unfolding scenario_cycle by (simp add: scenario_state_def)
  have h: "turn_pairs (history ?st1 (session_id ?st1))"
    unfolding scenario_cycle by (simp add: history_def scenario_state_def)
  have rf: "snd (snd (chat_handler failing_agent ?st1 ''AAPL'')) = Inl (AgentError ''reset'')"
    unfolding scenario_cycle
    by (simp add: chat_handler_unfold Let_def failing_agent_def scenario_agent_def
          handle_text_event)
  have rc: "snd (snd (chat_handler scenario_agent ?st1 ''AAPL'')) = Inr ()"
    unfolding scenario_cycle
    by (simp add: chat_handler_unfold Let_def scenario_agent_def handle_text_event)
  from turn_ordering[of failing_agent ?st1 "''AAPL''"] rf h
  have a: "alternating (history (fst (snd (chat_handler failing_agent ?st1 ''AAPL'')))
             (session_id ?st1))"
    by auto
  from turn_ordering[of scenario_agent ?st1 "''AAPL''"] rc h
  have b: "turn_pairs (history (fst (snd (chat_handler scenario_agent ?st1 ''AAPL'')))
             (session_id ?st1))"
    by auto
  have v: "history (fst (snd (chat_handler scenario_agent ?st1 ''AAPL''))) (Some ''s1'')
      = [\<lparr>role = ''user'', content = ''GOOGL''\<rparr>,
         \<lparr>role = ''assistant'', content = ''Ticker GOOGL''\<rparr>,
         \<lparr>role = ''user'', content = ''AAPL''\<rparr>,
         \<lparr>role = ''assistant'', content = ''Ticker GOOGL''\<rparr>]"
    unfolding scenario_cycle
    by (simp add: chat_handler_unfold Let_def scenario_agent_def scenario_state_def
          handle_text_event append_user_message_def history_def)
  from h a b rf rc v show ?thesis unfolding sid by simp
qed

text \<open>
  C5 as stated fails on the code. From the state of a fresh client: a first run creates
  the session; the run with the prompt "GOOGL" and the stream that fails after its first
  event ends with the exception uncaught and the user message alone in the history; the
  run with the prompt "AAPL" and a stream that ends appends the user message and the
  assistant message. The roles of the history are then user, user, assistant, which do
  not strictly alternate.
\<close>

theorem adjacent_user_turns:
  "script scenario_agent (init_session_state ''u1'')
       \<lparr>new_chat = False, selected = [], chat_input = None\<rparr>
     = ([Create_session ''u1''], scenario_state, Rerun)
   \<and> script failing_agent scenario_state
       \<lparr>new_chat = False, selected = ''s1'', chat_input = Some ''GOOGL''\<rparr>
     = ([Append_message (Some ''s1'') \<lparr>role = ''user'', content = ''GOOGL''\<rparr>,
         Async_stream_query ''GOOGL'' ''u1'' (Some ''s1''),
         Markdown_cursor ''Ticker ''],
        failed_state, Uncaught (AgentError ''reset''))
   \<and> snd (snd (script scenario_agent failed_state
       \<lparr>new_chat = False, selected = ''s1'', chat_input = Some ''AAPL''\<rparr>)) = Rerun
   \<and> history (fst (snd (script scenario_agent failed_state
       \<lparr>new_chat = False, selected = ''s1'', chat_input = Some ''AAPL''\<rparr>))) (Some ''s1'')
     = [\<lparr>role = ''user'', content = ''GOOGL''\<rparr>,
        \<lparr>role = ''user'', content = ''AAPL''\<rparr>,
        \<lparr>role = ''assistant'', content = ''Ticker GOOGL''\<rparr>]
   \<and> \<not> alternating (history (fst (snd (script scenario_agent failed_state
       \<lparr>new_chat = False, selected = ''s1'', chat_input = Some ''AAPL''\<rparr>))) (Some ''s1''))"
proof -
  have a: "script scenario_agent (init_session_state ''u1'')
       \<lparr>new_chat = False, selected = [], chat_input = None\<rparr>
     = ([Create_session ''u1''], scenario_state, Rerun)"
    by (simp add: script_def session_selector_def init_session_state_def after_call_def
          create_new_session_def scenario_agent_def scenario_state_def created_session_def)
  have b: "script failing_agent scenario_state
       \<lparr>new_chat = False, selected = ''s1'', chat_input = Some ''GOOGL''\<rparr>
     = ([Append_message (Some ''s1'') \<lparr>role = ''user'', content = ''GOOGL''\<rparr>,
         Async_stream_query ''GOOGL'' ''u1'' (Some ''s1''),
         Markdown_cursor ''Ticker ''],
        failed_state, Uncaught (AgentError ''reset''))"
    by (simp add: script_def session_selector_def after_call_def chat_handler_unfold Let_def
          failing_agent_def scenario_agent_def scenario_state_def failed_state_def
          handle_text_event append_user_message_def history_def)
  have c: "script scenario_agent failed_state
       \<lparr>new_chat = False, selected = ''s1'', chat_input = Some ''AAPL''\<rparr>
     = ([Append_message (Some ''s1'') \<lparr>role = ''user'', content = ''AAPL''\<rparr>,
         Async_stream_query ''AAPL'' ''u1'' (Some ''s1''),
         Markdown_cursor ''Ticker '', Markdown_cursor ''Ticker GOOGL'',
         Markdown ''Ticker GOOGL'', Async_get_session (Some ''s1'') ''u1'',
         Append_message (Some ''s1'') \<lparr>role = ''assistant'', content = ''Ticker GOOGL''\<rparr>],
        failed_state
          \<lparr>messages := [Some ''s1'' \<mapsto> [\<lparr>role = ''user'', content = ''GOOGL''\<rparr>,
                                        \<lparr>role = ''user'', content = ''AAPL''\<rparr>,
                                        \<lparr>role = ''assistant'', content = ''Ticker GOOGL''\<rparr>]],
           sessions := [fetched_session]\<rparr>,
        Rerun)"
    by (simp add: script_def session_selector_def after_call_def chat_handler_unfold Let_def
          scenario_agent_def scenario_state_def failed_state_def handle_text_event
          append_user_message_def history_def created_session_def)
  show ?thesis unfolding c using a b by (simp add: history_def)
qed

lemma update_session_obj_length:
  "length (update_session_obj ss sid upd) = length ss"
  by (induction ss) auto

lemma update_session_obj_others:
  "i < length ss \<Longrightarrow> Some (obj_id (ss ! i)) \<noteq> sid \<Longrightarrow> update_session_obj ss sid upd ! i = ss ! i"
proof (induction ss arbitrary: i)
  case Nil
  then show ?case by simp
next
  case (Cons s ss)
  then show ?case by (cases i) auto
qed

lemma update_session_obj_absent:
  "\<forall>s \<in> set ss. Some (obj_id s) \<noteq> sid \<Longrightarrow> update_session_obj ss sid upd = ss"
  by (induction ss) auto

lemma update_session_obj_distinct:
  "distinct (map obj_id ss) \<Longrightarrow>
     update_session_obj ss sid upd = map (\<lambda>s. if Some (obj_id s) = sid then upd else s) ss"
proof (induction ss)
  case Nil
  then show ?case by simp
next
  case (Cons s ss)
  show ?case
  proof (cases "Some (obj_id s) = sid")
    case True
    from Cons.prems have "obj_id s \<notin> set (map obj_id ss)" by simp
    then have "\<forall>t \<in> set ss. obj_id t \<noteq> obj_id s"
      by (metis image_eqI set_map)
    with True have "\<forall>t \<in> set ss. Some (obj_id t) \<noteq> sid" by auto
    then have "map (\<lambda>s. if Some (obj_id s) = sid then upd else s) ss = ss"
      by (simp add: map_idI)
    with True show ?thesis by simp
  next
    case False
    with Cons show ?thesis by simp
  qed
qed

lemma update_session_obj_idem:
  "Some (obj_id upd) = sid \<Longrightarrow>
     update_session_obj (update_session_obj ss sid upd) sid upd = update_session_obj ss sid upd"
  by (induction ss) auto

lemma chat_handler_completed:
  assumes "chat_handler ag st prompt = (effs, st', Inr ())"
  shows "\<exists>upd. async_get_session ag (session_id st) (user_id st) = Inr upd
           \<and> Async_get_session (session_id st) (user_id st) \<in> set effs
           \<and> sessions st' = update_session_obj (sessions st) (session_id st) upd
           \<and> session_id st' = session_id st \<and> user_id st' = user_id st"
  using assms
  by (auto simp: chat_handler_unfold Let_def append_user_message_simps
           split: prod.splits sum.splits)

text \<open>
  C7. When the handler has run to its end, \<^verbatim>\<open>async_get_session\<close> was called for the active
  session and answered with a session object, and the list of sessions afterwards is the
  old list with that object stored by the update loop: it has the same length, every
  entry with another id is unchanged, and when the ids of the list are distinct, exactly
  the entry with the active id has been replaced by the fetched object.
\<close>

theorem reconciliation_overwrites:
  assumes "chat_handler ag st prompt = (effs, st', Inr ())"
  shows "\<exists>upd. async_get_session ag (session_id st) (user_id st) = Inr upd
           \<and> Async_get_session (session_id st) (user_id st) \<in> set effs
           \<and> sessions st' = update_session_obj (sessions st) (session_id st) upd
           \<and> length (sessions st') = length (sessions st)
           \<and> (\<forall>i < length (sessions st).
                 Some (obj_id (sessions st ! i)) \<noteq> session_id st
                 \<longrightarrow> sessions st' ! i = sessions st ! i)
           \<and> (distinct (map obj_id (sessions st)) \<longrightarrow>
                 sessions st' = map (\<lambda>s. if Some (obj_id s) = session_id st then upd else s)
                                   (sessions st))"
proof -
  from chat_handler_completed[OF assms] obtain upd where
    u: "async_get_session ag (session_id st) (user_id st) = Inr upd"
       "Async_get_session (session_id st) (user_id st) \<in> set effs"
       "sessions st' = update_session_obj (sessions st) (session_id st) upd"
    by blast
  show ?thesis
    using u by (auto simp: update_session_obj_length update_session_obj_others
                  update_session_obj_distinct)
qed

lemma two_sessions_cycle:
  "chat_handler scenario_agent two_sessions_state ''GOOGL'' =
     ([Append_message (Some ''s1'') \<lparr>role = ''user'', content = ''GOOGL''\<rparr>,
       Async_stream_query ''GOOGL'' ''u1'' (Some ''s1''),
       Markdown_cursor ''Ticker '', Markdown_cursor ''Ticker GOOGL'',
       Markdown ''Ticker GOOGL'', Async_get_session (Some ''s1'') ''u1'',
       Append_message (Some ''s1'') \<lparr>role = ''assistant'', content = ''Ticker GOOGL''\<rparr>],
      two_sessions_state
        \<lparr>messages := (messages two_sessions_state)
            (Some ''s1'' \<mapsto> [\<lparr>role = ''user'', content = ''GOOGL''\<rparr>,
                            \<lparr>role = ''assistant'', content = ''Ticker GOOGL''\<rparr>]),
         sessions := [other_session, fetched_session]\<rparr>,
      Inr ())"
  by (simp add: chat_handler_unfold Let_def scenario_agent_def two_sessions_state_def
        handle_text_event append_user_message_def history_def created_session_def
        other_session_def)

theorem reconciliation_overwrites_witness:
  "distinct (map obj_id (sessions two_sessions_state))
   \<and> snd (snd (chat_handler scenario_agent two_sessions_state ''GOOGL'')) = Inr ()
   \<and> async_get_session scenario_agent (session_id two_sessions_state)
        (user_id two_sessions_state) = Inr fetched_session
   \<and> sessions (fst (snd (chat_handler scenario_agent two_sessions_state ''GOOGL'')))
      = map (\<lambda>s. if Some (obj_id s) = session_id two_sessions_state then fetched_session else s)
          (sessions two_sessions_state)
   \<and> sessions (fst (snd (chat_handler scenario_agent two_sessions_state ''GOOGL'')))
      = [other_session, fetched_session]"
proof -
  have d: "distinct (map obj_id (sessions two_sessions_state))"
    by (simp add: two_sessions_state_def other_session_def created_session_def)
  have g: "async_get_session scenario_agent (session_id two_sessions_state)
        (user_id two_sessions_state) = Inr fetched_session"
    by (simp add: scenario_agent_def)
  from reconciliation_overwrites[OF two_sessions_cycle] d g
  have "sessions (two_sessions_state
        \<lparr>messages := (messages two_sessions_state)
            (Some ''s1'' \<mapsto> [\<lparr>role = ''user'', content = ''GOOGL''\<rparr>,
                            \<lparr>role = ''assistant'', content = ''Ticker GOOGL''\<rparr>]),
         sessions := [other_session, fetched_session]\<rparr>)
      = map (\<lambda>s. if Some (obj_id s) = session_id two_sessions_state then fetched_session else s)
          (sessions two_sessions_state)"
    by auto
  with d g show ?thesis by (simp add: two_sessions_cycle)
qed


text \<open>
  C8. When the fetched session object carries the id that was asked for, storing it twice
  gives the same list of sessions as storing it once; and when two request cycles in a row
  on the same active session both run to their end and \<^verbatim>\<open>async_get_session\<close> answers both
  with the same object, the list of sessions after the second cycle is the list after the
  first.
\<close>

theorem reconciliation_idempotent:
  assumes "Some (obj_id upd) = sid"
  shows "update_session_obj (update_session_obj ss sid upd) sid upd
           = update_session_obj ss sid upd
         \<and> (chat_handler ag1 st p1 = (e1, st1, Inr ())
              \<and> chat_handler ag2 st1 p2 = (e2, st2, Inr ())
              \<and> session_id st = sid
              \<and> async_get_session ag1 (session_id st) (user_id st) = Inr upd
              \<and> async_get_session ag2 (session_id st) (user_id st) = Inr upd
              \<longrightarrow> sessions st2 = sessions st1)"
proof -
  have twice: "sessions st2 = sessions st1"
    if c1: "chat_handler ag1 st p1 = (e1, st1, Inr ())"
      and c2: "chat_handler ag2 st1 p2 = (e2, st2, Inr ())"
      and sid: "session_id st = sid"
      and g1: "async_get_session ag1 (session_id st) (user_id st) = Inr upd"
      and g2: "async_get_session ag2 (session_id st) (user_id st) = Inr upd"
  proof -
    from chat_handler_completed[OF c1] g1
    have s1: "sessions st1 = update_session_obj (sessions st) sid upd"
      and k: "session_id st1 = session_id st" "user_id st1 = user_id st"
      by (auto simp: sid)
    from chat_handler_completed[OF c2] g2 k
    have "sessions st2 = update_session_obj (sessions st1) sid upd"
      by (auto simp: sid)
    then show ?thesis by (simp add: s1 update_session_obj_idem[OF assms])
  qed
  from update_session_obj_idem[OF assms] twice show ?thesis by blast
qed

theorem reconciliation_idempotent_witness:
  "Some (obj_id fetched_session) = session_id scenario_state
   \<and> snd (snd (chat_handler scenario_agent scenario_state ''GOOGL'')) = Inr ()
   \<and> snd (snd (chat_handler scenario_agent
                  (fst (snd (chat_handler scenario_agent scenario_state ''GOOGL''))) ''AAPL''))
      = Inr ()
   \<and> sessions (fst (snd (chat_handler scenario_agent
                  (fst (snd (chat_handler scenario_agent scenario_state ''GOOGL''))) ''AAPL'')))
      = sessions (fst (snd (chat_handler scenario_agent scenario_state ''GOOGL'')))
   \<and> sessions (fst (snd (chat_handler scenario_agent scenario_state ''GOOGL'')))
      = [fetched_session]"
proof -
  let ?st1 = "fst (snd (chat_handler scenario_agent scenario_state ''GOOGL''))"
  have i: "Some (obj_id fetched_session) = session_id scenario_state"
    by (simp add: fetched_session_def scenario_state_def)
  have g: "async_get_session scenario_agent (session_id scenario_state)
             (user_id scenario_state) = Inr fetched_session"
    by (simp add: scenario_agent_def)
  have r1: "snd (snd (chat_handler scenario_agent scenario_state ''GOOGL'')) = Inr ()"
    and s1: "sessions ?st1 = [fetched_session]"
    by (simp_all add: scenario_cycle)
  have r2: "snd (snd (chat_handler scenario_agent ?st1 ''AAPL'')) = Inr ()"
    unfolding scenario_cycle
    by (simp add: chat_handler_unfold Let_def scenario_agent_def handle_text_event)
  have c1: "chat_handler scenario_agent scenario_state ''GOOGL''
             = (fst (chat_handler scenario_agent scenario_state ''GOOGL''), ?st1, Inr ())"
    using r1 by (metis prod.collapse)
  have c2: "chat_handler scenario_agent ?st1 ''AAPL''
             = (fst (chat_handler scenario_agent ?st1 ''AAPL''),
                fst (snd (chat_handler scenario_agent ?st1 ''AAPL'')), Inr ())"
    using r2 by (metis prod.collapse)
  from reconciliation_idempotent[OF i, of "[]" scenario_agent scenario_state "''GOOGL''"
      "fst (chat_handler scenario_agent scenario_state ''GOOGL'')" ?st1
      scenario_agent "''AAPL''" "fst (chat_handler scenario_agent ?st1 ''AAPL'')"
      "fst (snd (chat_handler scenario_agent ?st1 ''AAPL''))"] c1 c2 g
  have "sessions (fst (snd (chat_handler scenario_agent ?st1 ''AAPL''))) = sessions ?st1"
    by blast
  with i r1 r2 s1 show ?thesis by simp
qed

text \<open>
  C9. When \<^verbatim>\<open>agent.create_session\<close> raises, \<^verbatim>\<open>create_new_session\<close> has called it exactly once,
  raises the same exception and leaves the session state as it was: no session id is
  set, no session is appended, no message history is created. A run of the script that
  creates a session (the "New Chat" button, or no session yet) ends with that exception
  uncaught and the state unchanged. In \<^verbatim>\<open>use_agent.py\<close>, \<^verbatim>\<open>main\<close> calls \<^verbatim>\<open>create_session\<close> once,
  prints the exception and returns.
\<close>

theorem create_session_failure_atomic:
  assumes "create_session ag (user_id st) = Inl e"
  shows "create_new_session ag st = ([Create_session (user_id st)], st, Inl e)
         \<and> (new_chat inp \<or> sessions st = [] \<and> session_id st = None
              \<longrightarrow> script ag st inp = ([Create_session (user_id st)], st, Uncaught e))
         \<and> main ag (user_id st)
             = [Main_create_session (user_id st), Print_error_creating_session e]"
  using assms
  by (auto simp: create_new_session_def script_def after_call_def session_selector_def
        main_def)

theorem create_session_failure_atomic_witness:
  "create_session unreachable_agent (user_id (init_session_state ''u1''))
     = Inl (AgentError ''unreachable'')
   \<and> sessions (init_session_state ''u1'') = []
   \<and> session_id (init_session_state ''u1'') = None
   \<and> create_new_session unreachable_agent (init_session_state ''u1'')
      = ([Create_session ''u1''], init_session_state ''u1'', Inl (AgentError ''unreachable''))
   \<and> script unreachable_agent (init_session_state ''u1'')
        \<lparr>new_chat = False, selected = [], chat_input = Some ''GOOGL''\<rparr>
      = ([Create_session ''u1''], init_session_state ''u1'',
         Uncaught (AgentError ''unreachable''))
   \<and> main unreachable_agent ''u1''
      = [Main_create_session ''u1'', Print_error_creating_session (AgentError ''unreachable'')]"
proof -
  have f: "create_session unreachable_agent (user_id (init_session_state ''u1''))
             = Inl (AgentError ''unreachable'')"
    by (simp add: unreachable_agent_def scenario_agent_def)
  have n: "sessions (init_session_state ''u1'') = []"
    "session_id (init_session_state ''u1'') = None"
    "user_id (init_session_state ''u1'') = ''u1''"
    by (simp_all add: init_session_state_def)
  from create_session_failure_atomic[OF f,
      of "\<lparr>new_chat = False, selected = [], chat_input = Some ''GOOGL''\<rparr>"] f n
  show ?thesis by simp
qed

text \<open>
  C10. A request cycle, however it ends, leaves the message history of every key other
  than the active session id as it was; and the session selector changes nothing but the
  active session id.
\<close>

theorem history_isolation:
  "(k \<noteq> session_id st \<longrightarrow>
      messages (fst (snd (chat_handler ag st prompt))) k = messages st k)
   \<and> messages (fst (session_selector st sel)) = messages st
   \<and> fst (session_selector st sel)
       = st\<lparr>session_id := session_id (fst (session_selector st sel))\<rparr>"
  by (simp add: chat_handler_unfold Let_def append_user_message_def session_selector_def
        split: prod.splits sum.splits)

theorem history_isolation_witness:
  "Some ''s0'' \<noteq> session_id two_sessions_state
   \<and> messages (fst (snd (chat_handler scenario_agent two_sessions_state ''GOOGL''))) (Some ''s0'')
      = Some [\<lparr>role = ''user'', content = ''hello''\<rparr>, \<lparr>role = ''assistant'', content = ''hi''\<rparr>]
   \<and> messages (fst (snd (chat_handler scenario_agent two_sessions_state ''GOOGL''))) (Some ''s1'')
      = Some [\<lparr>role = ''user'', content = ''GOOGL''\<rparr>,
              \<lparr>role = ''assistant'', content = ''Ticker GOOGL''\<rparr>]
   \<and> session_selector two_sessions_state ''s0''
      = (two_sessions_state\<lparr>session_id := Some ''s0''\<rparr>, True)
   \<and> messages (fst (session_selector two_sessions_state ''s0'')) = messages two_sessions_state"
proof -
  have k: "Some ''s0'' \<noteq> session_id two_sessions_state"
    by (simp add: two_sessions_state_def)
  have m: "messages two_sessions_state (Some ''s0'')
      = Some [\<lparr>role = ''user'', content = ''hello''\<rparr>, \<lparr>role = ''assistant'', content = ''hi''\<rparr>]"
    by (simp add: two_sessions_state_def)
  have s: "session_selector two_sessions_state ''s0''
      = (two_sessions_state\<lparr>session_id := Some ''s0''\<rparr>, True)"
    by (simp add: session_selector_def two_sessions_state_def)
  have a: "messages (fst (snd (chat_handler scenario_agent two_sessions_state ''GOOGL'')))
        (Some ''s1'')
      = Some [\<lparr>role = ''user'', content = ''GOOGL''\<rparr>,
              \<lparr>role = ''assistant'', content = ''Ticker GOOGL''\<rparr>]"
    unfolding two_sessions_cycle by simp
  from history_isolation[of "Some ''s0''" two_sessions_state scenario_agent "''GOOGL''" "''s0''"]
    k m
  have "messages (fst (snd (chat_handler scenario_agent two_sessions_state ''GOOGL'')))
          (Some ''s0'')
      = Some [\<lparr>role = ''user'', content = ''hello''\<rparr>, \<lparr>role = ''assistant'', content = ''hi''\<rparr>]"
    and "messages (fst (session_selector two_sessions_state ''s0'')) = messages two_sessions_state"
    by simp_all
  with k s a show ?thesis by simp
qed

end
